theory Spec2Isabelle
  imports Main "HOL-Library.Multiset"
begin

section \<open>Python values reaching the views\<close>

text \<open>
  \<open>request.get_json()\<close> hands the views a parsed JSON document: \<open>None\<close> for the JSON
  literal \<open>null\<close>, a bool, an int, a str, a list or a dict. A dict is kept as the list of
  its items. JSON floats are left out. A body that is not JSON at all is answered by
  the framework inside \<open>get_json\<close> and never reaches the code below.
\<close>

datatype json =
    JNull
  | JBool bool
  | JInt int
  | JStr string
  | JList "json list"
  | JDict "(string \<times> json) list"

text \<open>The exceptions the two source files can raise or meet.\<close>

datatype exn =
    TypeError
  | AttributeError
  | KeyError
  | ValueError string
  | IntegrityError
  | InterfaceError
  | OverflowError

text \<open>Python truthiness, as \<open>not data\<close> and \<open>not body\<close> read it.\<close>

fun truthy :: "json \<Rightarrow> bool" where
  "truthy JNull = False"
| "truthy (JBool b) = b"
| "truthy (JInt i) = (i \<noteq> 0)"
| "truthy (JStr s) = (s \<noteq> [])"
| "truthy (JList xs) = (xs \<noteq> [])"
| "truthy (JDict kvs) = (kvs \<noteq> [])"

fun startswith :: "string \<Rightarrow> string \<Rightarrow> bool" where
  "startswith [] s = True"
| "startswith (c # cs) [] = False"
| "startswith (c # cs) (d # ds) = (c = d \<and> startswith cs ds)"

fun str_contains :: "string \<Rightarrow> string \<Rightarrow> bool" where
  "str_contains k [] = (k = [])"
| "str_contains k (c # cs) = (startswith k (c # cs) \<or> str_contains k cs)"

text \<open>
  \<open>key in data\<close>: key membership for a dict, element membership for a list, substring
  test for a str; \<open>None\<close>, bools and ints are not iterable and raise \<open>TypeError\<close>.
\<close>

fun py_in :: "string \<Rightarrow> json \<Rightarrow> exn + bool" where
  "py_in k (JDict kvs) = Inr (k \<in> set (map fst kvs))"
| "py_in k (JList xs) = Inr (JStr k \<in> set xs)"
| "py_in k (JStr s) = Inr (str_contains k s)"
| "py_in k JNull = Inl TypeError"
| "py_in k (JBool b) = Inl TypeError"
| "py_in k (JInt i) = Inl TypeError"

text \<open>\<open>data.get(key)\<close>: only a dict has the method; a missing key gives \<open>None\<close>.\<close>

fun py_get :: "json \<Rightarrow> string \<Rightarrow> exn + json" where
  "py_get (JDict kvs) k = Inr (case map_of kvs k of None \<Rightarrow> JNull | Some v \<Rightarrow> v)"
| "py_get d k = Inl AttributeError"

text \<open>
  \<open>data[key]\<close> with a str key: a dict looks the key up (\<open>KeyError\<close> when missing); a list
  or a str takes integer indices only, and the other values are not subscriptable.
\<close>

fun py_getitem :: "json \<Rightarrow> string \<Rightarrow> exn + json" where
  "py_getitem (JDict kvs) k = (case map_of kvs k of None \<Rightarrow> Inl KeyError | Some v \<Rightarrow> Inr v)"
| "py_getitem d k = Inl TypeError"

section \<open>models.py: the Message model\<close>

text \<open>
  A \<open>datetime\<close> is a point on the microsecond scale; only equality and order of
  timestamps are used here. The primary key is a positive row id.
\<close>

type_synonym datetime = int

record message =
  msg_id :: nat
  body :: string
  username :: string
  created_at :: datetime
  updated_at :: datetime

text \<open>\<open>Message.validate_body\<close>, the \<open>@validates('body')\<close> hook run on every assignment.\<close>

definition validate_body :: "json \<Rightarrow> exn + json" where
  "validate_body b =
     (if \<not> truthy b then Inl (ValueError ''Message body cannot be empty.'') else Inr b)"

section \<open>The messages table\<close>

text \<open>
  The table of \<open>sqlite:///app.db\<close>, rows in row-id order. SQLAlchemy and SQLite are not
  part of the repository; the functions of this section write out what the column
  declarations of \<open>models.py\<close> ask of them. A failure of the database file itself
  (locked, full) is not modelled.
\<close>

record db =
  rows :: "message list"

definition empty_db :: db where
  "empty_db = \<lparr>rows = []\<rparr>"

function str_of_nat :: "nat \<Rightarrow> string" where
  "str_of_nat n =
     (if n < 10 then [char_of (48 + n)]
      else str_of_nat (n div 10) @ [char_of (48 + n mod 10)])"
  by pat_completeness auto
termination
  by (relation "measure (\<lambda>n. n)") auto

definition str_of_int :: "int \<Rightarrow> string" where
  "str_of_int i = (if i < 0 then CHR ''-'' # str_of_nat (nat (- i)) else str_of_nat (nat i))"

text \<open>
  SQLite integers are signed and 64 bits wide: the driver raises \<open>OverflowError\<close> for
  a Python int outside that range.
\<close>

definition fits_int64 :: "int \<Rightarrow> bool" where
  "fits_int64 i = (- (2 ^ 63) \<le> i \<and> i < 2 ^ 63)"

text \<open>
  A value bound to a \<open>db.String, nullable=False\<close> column: a str is stored as it is;
  \<open>None\<close> breaks the NOT NULL constraint; a number the driver accepts is turned into
  its text by the column's TEXT affinity (a bool is the int 0 or 1 to the driver); the
  driver refuses a list or a dict.
\<close>

fun bind_String :: "json \<Rightarrow> exn + string" where
  "bind_String (JStr s) = Inr s"
| "bind_String JNull = Inl IntegrityError"
| "bind_String (JInt i) = (if fits_int64 i then Inr (str_of_int i) else Inl OverflowError)"
| "bind_String (JBool b) = Inr (if b then ''1'' else ''0'')"
| "bind_String (JList xs) = Inl InterfaceError"
| "bind_String (JDict kvs) = Inl InterfaceError"

text \<open>
  \<open>id = db.Column(db.Integer, primary_key=True)\<close>: the row id SQLite gives a new row,
  one more than the largest in the table.
\<close>

definition next_id :: "db \<Rightarrow> nat" where
  "next_id d = Suc (fold max (map msg_id (rows d)) 0)"

text \<open>
  \<open>db.session.get(Message, id)\<close>: the id is bound as a parameter of the SELECT, which
  raises \<open>OverflowError\<close> when it does not fit; otherwise the row with that primary key,
  or \<open>None\<close>.
\<close>

definition session_get :: "db \<Rightarrow> nat \<Rightarrow> exn + message option" where
  "session_get d i =
     (if fits_int64 (int i) then Inr (find (\<lambda>m. msg_id m = i) (rows d))
      else Inl OverflowError)"

text \<open>
  \<open>db.session.add(new_message); db.session.commit()\<close>: the INSERT. The two timestamp
  columns each carry their own \<open>default=lambda: datetime.now(timezone.utc)\<close>, so the
  clock is read twice, for \<open>created_at\<close> then for \<open>updated_at\<close> (the order of the
  columns); \<open>now_created\<close> and \<open>now_updated\<close> are those two readings.
\<close>

definition insert_message ::
  "db \<Rightarrow> json \<Rightarrow> json \<Rightarrow> datetime \<Rightarrow> datetime \<Rightarrow> exn + (message \<times> db)" where
  "insert_message d b u now_created now_updated =
     (case bind_String b of
        Inl e \<Rightarrow> Inl e
      | Inr b' \<Rightarrow>
          (case bind_String u of
             Inl e \<Rightarrow> Inl e
           | Inr u' \<Rightarrow>
               (let m = \<lparr>msg_id = next_id d, body = b', username = u',
                         created_at = now_created, updated_at = now_updated\<rparr>
                in Inr (m, d\<lparr>rows := rows d @ [m]\<rparr>))))"

text \<open>
  \<open>message.body = v; db.session.add(message); db.session.commit()\<close> on a loaded row.
  The unit of work compares the new value with the loaded one and issues no UPDATE when
  they are equal; an UPDATE sets \<open>body\<close> and fires
  \<open>onupdate=lambda: datetime.now(timezone.utc)\<close> for \<open>updated_at\<close>, whose reading
  is \<open>now\<close>.
\<close>

definition update_row :: "message \<Rightarrow> string \<Rightarrow> datetime \<Rightarrow> message \<Rightarrow> message" where
  "update_row target b now r =
     (if msg_id r = msg_id target then r\<lparr>body := b, updated_at := now\<rparr> else r)"

definition commit_body :: "db \<Rightarrow> message \<Rightarrow> json \<Rightarrow> datetime \<Rightarrow> exn + (message \<times> db)" where
  "commit_body d m v now =
     (if v = JStr (body m) then Inr (m, d)
      else (case bind_String v of
              Inl e \<Rightarrow> Inl e
            | Inr b' \<Rightarrow>
                Inr (m\<lparr>body := b', updated_at := now\<rparr>,
                     d\<lparr>rows := map (update_row m b' now) (rows d)\<rparr>)))"

text \<open>\<open>db.session.delete(message); db.session.commit()\<close>: the DELETE by primary key.\<close>

definition delete_message :: "db \<Rightarrow> message \<Rightarrow> db" where
  "delete_message d m = d\<lparr>rows := filter (\<lambda>r. msg_id r \<noteq> msg_id m) (rows d)\<rparr>"

text \<open>
  \<open>Message.query.order_by(Message.created_at).all()\<close>: SQLite walks the table in row-id
  order and sorts what it reads by \<open>created_at\<close>; rows of equal \<open>created_at\<close> stay in
  the order they were read.
\<close>

definition query_all :: "db \<Rightarrow> message list" where
  "query_all d = sort_key created_at (sort_key msg_id (rows d))"

text \<open>
  A bound on the query that does not depend on how equal \<open>created_at\<close> are ordered:
  \<open>ms\<close> holds the rows of the table, each once, in ascending \<open>created_at\<close>. The list
  the query returns is one of these.
\<close>

definition created_le :: "message \<Rightarrow> message \<Rightarrow> bool" where
  "created_le a b = (created_at a \<le> created_at b)"

definition order_by_created_at :: "db \<Rightarrow> message list \<Rightarrow> bool" where
  "order_by_created_at d ms = (mset ms = mset (rows d) \<and> sorted_wrt created_le ms)"

section \<open>app.py: the views\<close>

datatype cell = CInt nat | CStr string | CIso datetime

text \<open>
  What \<open>make_response\<close> is given: an \<open>errors\<close> list, the singular \<open>error\<close>, one message
  dict, a list of them, or the empty string. \<open>CIso t\<close> stands for the string
  \<open>t.isoformat()\<close>.
\<close>

datatype content =
    RErrors "string list"
  | RError string
  | RMessage "(string \<times> cell) list"
  | RMessages "(string \<times> cell) list list"
  | REmpty

record response =
  status :: nat
  payload :: content

definition make_response :: "content \<Rightarrow> nat \<Rightarrow> response" where
  "make_response c s = \<lparr>status = s, payload = c\<rparr>"

definition message_to_dict :: "message \<Rightarrow> (string \<times> cell) list" where
  "message_to_dict m =
     [(''id'', CInt (msg_id m)),
      (''body'', CStr (body m)),
      (''username'', CStr (username m)),
      (''created_at'', CIso (created_at m)),
      (''updated_at'', CIso (updated_at m))]"

text \<open>
  The GET branch of \<open>messages()\<close>, as a function of what the query returned.
\<close>

definition messages_GET :: "message list \<Rightarrow> response" where
  "messages_GET messages_list = make_response (RMessages (map message_to_dict messages_list)) 200"

text \<open>
  The body of the \<open>try\<close> of the POST branch: both \<open>data.get\<close> calls, the constructor
  (which runs \<open>validate_body\<close> on \<open>body\<close>), then add and commit.
\<close>

definition create_message ::
  "db \<Rightarrow> json \<Rightarrow> datetime \<Rightarrow> datetime \<Rightarrow> exn + (message \<times> db)" where
  "create_message d data now_created now_updated =
     (case py_get data ''body'' of
        Inl e \<Rightarrow> Inl e
      | Inr b \<Rightarrow>
          (case py_get data ''username'' of
             Inl e \<Rightarrow> Inl e
           | Inr u \<Rightarrow>
               (case validate_body b of
                  Inl e \<Rightarrow> Inl e
                | Inr b' \<Rightarrow> insert_message d b' u now_created now_updated)))"

text \<open>
  The POST branch of \<open>messages()\<close>. The result is the response, or the exception that
  leaves the view uncaught, together with the table afterwards.
\<close>

definition missing_fields :: response where
  "missing_fields = make_response (RErrors [''Missing body or username in request data.'']) 400"

definition messages_POST ::
  "db \<Rightarrow> json \<Rightarrow> datetime \<Rightarrow> datetime \<Rightarrow> (exn + response) \<times> db" where
  "messages_POST d data now_created now_updated =
     (if \<not> truthy data then (Inr missing_fields, d)
      else (case py_in ''body'' data of
              Inl e \<Rightarrow> (Inl e, d)
            | Inr has_body \<Rightarrow>
                if \<not> has_body then (Inr missing_fields, d)
                else (case py_in ''username'' data of
                        Inl e \<Rightarrow> (Inl e, d)
                      | Inr has_username \<Rightarrow>
                          if \<not> has_username then (Inr missing_fields, d)
                          else (case create_message d data now_created now_updated of
                                  Inr (new_message, d') \<Rightarrow>
                                    (Inr (make_response (RMessage (message_to_dict new_message)) 201), d')
                                | Inl (ValueError e) \<Rightarrow>
                                    (Inr (make_response (RErrors [e]) 400), d)
                                | Inl _ \<Rightarrow>
                                    (Inr (make_response
                                       (RErrors [''Could not process the message creation.'']) 500), d)))))"

text \<open>
  \<open>message_by_id(id)\<close>: the row is looked up first, for both methods, outside any
  \<open>try\<close>; the payload is read in the PATCH branch only.
\<close>

datatype http_method = PATCH | DELETE

definition set_body :: "db \<Rightarrow> message \<Rightarrow> json \<Rightarrow> datetime \<Rightarrow> exn + (message \<times> db)" where
  "set_body d m data now =
     (case py_getitem data ''body'' of
        Inl e \<Rightarrow> Inl e
      | Inr v \<Rightarrow>
          (case validate_body v of
             Inl e \<Rightarrow> Inl e
           | Inr v' \<Rightarrow> commit_body d m v' now))"

definition message_by_id ::
  "db \<Rightarrow> http_method \<Rightarrow> nat \<Rightarrow> json \<Rightarrow> datetime \<Rightarrow> (exn + response) \<times> db" where
  "message_by_id d method i data now =
     (case session_get d i of
        Inl e \<Rightarrow> (Inl e, d)
      | Inr None \<Rightarrow> (Inr (make_response (RError ''Message not found'') 404), d)
      | Inr (Some m) \<Rightarrow>
          (case method of
             PATCH \<Rightarrow>
               (case py_in ''body'' data of
                  Inl e \<Rightarrow> (Inl e, d)
                | Inr has_body \<Rightarrow>
                    if has_body then
                      (case set_body d m data now of
                         Inr (m', d') \<Rightarrow>
                           (Inr (make_response (RMessage (message_to_dict m')) 202), d')
                       | Inl (ValueError e) \<Rightarrow>
                           (Inr (make_response (RErrors [e]) 400), d)
                       | Inl _ \<Rightarrow>
                           (Inr (make_response (RErrors [''Could not update the message.'']) 500), d))
                    else (Inr (make_response (RErrors [''Missing body in update request.'']) 400), d))
           | DELETE \<Rightarrow> (Inr (make_response REmpty 204), delete_message d m)))"

section \<open>Sequences of requests\<close>

text \<open>
  A request that changes the table, with the clock readings its handler takes: a POST
  reads the clock for \<open>created_at\<close> and for \<open>updated_at\<close>, a PATCH for \<open>updated_at\<close>.
  GET leaves the table as it is.
\<close>

datatype request =
    Get
  | Post json datetime datetime
  | Patch nat json datetime
  | Delete nat

fun step :: "db \<Rightarrow> request \<Rightarrow> db" where
  "step d Get = d"
| "step d (Post data now_created now_updated) = snd (messages_POST d data now_created now_updated)"
| "step d (Patch i data now) = snd (message_by_id d PATCH i data now)"
| "step d (Delete i) = snd (message_by_id d DELETE i JNull 0)"

fun run :: "db \<Rightarrow> request list \<Rightarrow> db" where
  "run d [] = d"
| "run d (r # rs) = run (step d r) rs"

fun clock_reads :: "request \<Rightarrow> datetime list" where
  "clock_reads Get = []"
| "clock_reads (Post data now_created now_updated) = [now_created, now_updated]"
| "clock_reads (Patch i data now) = [now]"
| "clock_reads (Delete i) = []"

definition timestamps_ordered :: "message \<Rightarrow> bool" where
  "timestamps_ordered m = (created_at m \<le> updated_at m)"


section \<open>Sample payloads and tables\<close>

definition hi_alice :: json where
  "hi_alice = JDict [(''body'', JStr ''hi''), (''username'', JStr ''alice'')]"

definition yo_bob :: json where
  "yo_bob = JDict [(''body'', JStr ''yo''), (''username'', JStr ''bob'')]"

definition hello :: json where
  "hello = JDict [(''body'', JStr ''hello'')]"

definition alice_message :: message where
  "alice_message =
     \<lparr>msg_id = 1, body = ''hi'', username = ''alice'', created_at = 10, updated_at = 10\<rparr>"

definition bob_message :: message where
  "bob_message =
     \<lparr>msg_id = 2, body = ''yo'', username = ''bob'', created_at = 10, updated_at = 10\<rparr>"

definition alice_db :: db where
  "alice_db = \<lparr>rows = [alice_message]\<rparr>"

definition alice_bob_db :: db where
  "alice_bob_db = \<lparr>rows = [alice_message, bob_message]\<rparr>"

definition late_message :: message where
  "late_message =
     \<lparr>msg_id = 1, body = ''hi'', username = ''alice'', created_at = 100, updated_at = 101\<rparr>"

definition rewound_message :: message where
  "rewound_message =
     \<lparr>msg_id = 1, body = ''hello'', username = ''alice'', created_at = 10, updated_at = 5\<rparr>"

definition edited_message :: message where
  "edited_message =
     \<lparr>msg_id = 1, body = ''hello'', username = ''alice'', created_at = 10, updated_at = 20\<rparr>"

definition anon_message :: message where
  "anon_message =
     \<lparr>msg_id = 2, body = ''hi'', username = '''', created_at = 30, updated_at = 31\<rparr>"

section \<open>An invariant of the table\<close>

text \<open>
  Every row was created no later than it was last updated, and last updated no later
  than \<open>t\<close>.
\<close>

definition stamped_by :: "datetime \<Rightarrow> db \<Rightarrow> bool" where
  "stamped_by t d =
     list_all (\<lambda>m. created_at m \<le> updated_at m \<and> updated_at m \<le> t) (rows d)"

section \<open>Unfolding the views\<close>

lemmas view_defs =
  messages_POST_def create_message_def insert_message_def validate_body_def
  message_by_id_def set_body_def commit_body_def session_get_def delete_message_def
  update_row_def next_id_def missing_fields_def fits_int64_def Let_def

lemmas sample_defs =
  empty_db_def hi_alice_def yo_bob_def hello_def alice_db_def alice_bob_db_def
  alice_message_def bob_message_def late_message_def rewound_message_def
  edited_message_def anon_message_def

lemma key_present: "map_of kvs k = Some v \<Longrightarrow> k \<in> fst ` set kvs"
  by (metis map_of_eq_None_iff option.distinct(1))

lemma session_get_found:
  "session_get d i = Inr (Some m) \<Longrightarrow>
     fits_int64 (int i) \<and> find (\<lambda>r. msg_id r = i) (rows d) = Some m"
  by (auto simp: session_get_def split: if_splits)

lemma fits_int64_nat: "fits_int64 (int i) = (i < 2 ^ 63)"
proof -
  have "(int i < 2 ^ 63) = (int i < int (2 ^ 63))" by simp
  also have "\<dots> = (i < 2 ^ 63)" by (rule of_nat_less_iff)
  finally show ?thesis by (simp add: fits_int64_def)
qed

lemma session_get_id: "session_get d i = Inr (Some m) \<Longrightarrow> msg_id m = i"
  using session_get_found [of d i m] by (metis (mono_tags, lifting) find_Some_iff)

lemma find_map_update:
  assumes "find P xs = Some m" "\<And>x. P (f x) = P x"
  shows "find P (map f xs) = Some (f m)"
  using assms by (induction xs) (auto split: if_splits)

section \<open>POST /messages\<close>

lemma post_valid:
  assumes "map_of kvs ''body'' = Some (JStr b)" "b \<noteq> []"
    and "map_of kvs ''username'' = Some (JStr u)"
  shows "messages_POST d (JDict kvs) tc tu =
     (Inr (make_response (RMessage (message_to_dict
         \<lparr>msg_id = next_id d, body = b, username = u, created_at = tc, updated_at = tu\<rparr>)) 201),
      d\<lparr>rows := rows d @
         [\<lparr>msg_id = next_id d, body = b, username = u, created_at = tc, updated_at = tu\<rparr>]\<rparr>)"
proof -
  have kb: "''body'' \<in> fst ` set kvs" using assms(1) by (rule key_present)
  have ku: "''username'' \<in> fst ` set kvs" using assms(3) by (rule key_present)
  have ne: "kvs \<noteq> []" using kb by auto
  show ?thesis using assms kb ku ne
    by (simp add: messages_POST_def create_message_def insert_message_def validate_body_def
        Let_def)
qed

text \<open>
  C1, as the code has it: a POST with a non-empty str \<open>body\<close> and a str \<open>username\<close>
  answers 201 with the new record, which is appended to the table; its \<open>created_at\<close> is
  the clock reading taken for the \<open>created_at\<close> default and its \<open>updated_at\<close> the
  reading taken for the \<open>updated_at\<close> default, so the two are equal exactly when the two
  readings are.
\<close>

theorem post_created_timestamps:
  assumes "map_of kvs ''body'' = Some (JStr b)" "b \<noteq> []"
    and "map_of kvs ''username'' = Some (JStr u)"
  shows "\<exists>m. messages_POST d (JDict kvs) now_created now_updated =
            (Inr (make_response (RMessage (message_to_dict m)) 201), d\<lparr>rows := rows d @ [m]\<rparr>)
          \<and> body m = b \<and> username m = u
          \<and> created_at m = now_created \<and> updated_at m = now_updated
          \<and> (created_at m = updated_at m) = (now_created = now_updated)"
  using post_valid [OF assms, of d now_created now_updated] by auto

theorem post_created_timestamps_witness:
  "map_of [(''body'', JStr ''hi''), (''username'', JStr ''alice'')] ''body'' = Some (JStr ''hi'')
   \<and> ''hi'' \<noteq> []
   \<and> map_of [(''body'', JStr ''hi''), (''username'', JStr ''alice'')] ''username''
        = Some (JStr ''alice'')
   \<and> (\<exists>m. messages_POST empty_db
              (JDict [(''body'', JStr ''hi''), (''username'', JStr ''alice'')]) 10 10 =
            (Inr (make_response (RMessage (message_to_dict m)) 201),
             empty_db\<lparr>rows := rows empty_db @ [m]\<rparr>)
          \<and> body m = ''hi'' \<and> username m = ''alice''
          \<and> created_at m = 10 \<and> updated_at m = 10
          \<and> (created_at m = updated_at m) = ((10::int) = 10))"
proof -
  have h1: "map_of [(''body'', JStr ''hi''), (''username'', JStr ''alice'')] ''body''
              = Some (JStr ''hi'')" by simp
  have h2: "''hi'' \<noteq> []" by simp
  have h3: "map_of [(''body'', JStr ''hi''), (''username'', JStr ''alice'')] ''username''
              = Some (JStr ''alice'')" by simp
  from post_created_timestamps [OF h1 h2 h3, of empty_db 10 10] h1 h2 h3
  show ?thesis by blast
qed

text \<open>
  C1 as stated fails: the clock read 100 for \<open>created_at\<close> and 101 for \<open>updated_at\<close>
  gives a 201 whose record has two different timestamps.
\<close>

theorem post_timestamps_differ:
  "messages_POST empty_db hi_alice 100 101 =
     (Inr (make_response (RMessage (message_to_dict late_message)) 201),
      \<lparr>rows = [late_message]\<rparr>)
   \<and> created_at late_message \<noteq> updated_at late_message"
  by (simp add: view_defs sample_defs)

text \<open>
  C4, as the code has it: a POST answers 400 and leaves the table as it was when the
  parsed payload is \<open>None\<close> or another value Python takes for false, or is an object,
  array or string for which \<open>'body' in data\<close> or \<open>'username' in data\<close> is false, or is
  an object whose \<open>body\<close> is the empty string.
\<close>

theorem post_rejected_400:
  assumes "\<not> truthy data
           \<or> py_in ''body'' data = Inr False
           \<or> py_in ''username'' data = Inr False
           \<or> (data = JDict kvs \<and> map_of kvs ''body'' = Some (JStr ''''))"
  shows "\<exists>r. messages_POST d data now_created now_updated = (Inr r, d) \<and> status r = 400"
proof -
  consider (falsy) "\<not> truthy data"
    | (no_body) "truthy data" "py_in ''body'' data = Inr False"
    | (no_username) "truthy data" "py_in ''username'' data = Inr False"
    | (empty_body) "truthy data" "data = JDict kvs" "map_of kvs ''body'' = Some (JStr '''')"
    using assms by blast
  then show ?thesis
  proof cases
    case falsy
    then show ?thesis by (simp add: messages_POST_def missing_fields_def make_response_def)
  next
    case no_body
    then show ?thesis by (simp add: messages_POST_def missing_fields_def make_response_def)
  next
    case no_username
    then obtain has_body where "py_in ''body'' data = Inr has_body"
      by (cases data) auto
    then show ?thesis using no_username
      by (simp add: messages_POST_def missing_fields_def make_response_def)
  next
    case empty_body
    then show ?thesis
      by (auto simp: messages_POST_def create_message_def validate_body_def
          missing_fields_def make_response_def)
  qed
qed

theorem post_rejected_400_witness:
  "py_in ''body'' (JDict [(''username'', JStr ''alice'')]) = Inr False
   \<and> messages_POST alice_db (JDict [(''username'', JStr ''alice'')]) 20 20
        = (Inr missing_fields, alice_db)
   \<and> status missing_fields = 400"
proof -
  have h: "\<not> truthy (JDict [(''username'', JStr ''alice'')])
      \<or> py_in ''body'' (JDict [(''username'', JStr ''alice'')]) = Inr False
      \<or> py_in ''username'' (JDict [(''username'', JStr ''alice'')]) = Inr False
      \<or> (JDict [(''username'', JStr ''alice'')] = JDict []
          \<and> map_of [] ''body'' = Some (JStr ''''))" by simp
  from post_rejected_400 [OF h, of alice_db 20 20] show ?thesis
    by (auto simp: messages_POST_def missing_fields_def make_response_def)
qed

text \<open>
  C4 as stated fails: the payload \<open>5\<close> has neither a \<open>body\<close> nor a \<open>username\<close> key, and
  \<open>'body' not in data\<close> raises \<open>TypeError\<close> on it outside the \<open>try\<close>; no 400 is made.
\<close>

theorem post_number_payload_raises:
  "truthy (JInt 5)
   \<and> messages_POST alice_db (JInt 5) 20 20 = (Inl TypeError, alice_db)"
  by (simp add: messages_POST_def)

text \<open>
  C10: a POST whose \<open>username\<close> is the empty string, with a non-empty str \<open>body\<close>,
  answers 201 and appends a record whose \<open>username\<close> is the empty string.
\<close>

theorem post_empty_username_201:
  assumes "map_of kvs ''body'' = Some (JStr b)" "b \<noteq> []"
    and "map_of kvs ''username'' = Some (JStr '''')"
  shows "\<exists>m. messages_POST d (JDict kvs) now_created now_updated =
            (Inr (make_response (RMessage (message_to_dict m)) 201), d\<lparr>rows := rows d @ [m]\<rparr>)
          \<and> status (make_response (RMessage (message_to_dict m)) 201) = 201
          \<and> body m = b \<and> username m = ''''
          \<and> map_of (message_to_dict m) ''username'' = Some (CStr '''')"
proof -
  let ?m = "\<lparr>msg_id = next_id d, body = b, username = '''',
             created_at = now_created, updated_at = now_updated\<rparr>"
  have "messages_POST d (JDict kvs) now_created now_updated =
          (Inr (make_response (RMessage (message_to_dict ?m)) 201), d\<lparr>rows := rows d @ [?m]\<rparr>)"
    by (rule post_valid [OF assms])
  then show ?thesis
    by (intro exI [of _ ?m]) (simp add: make_response_def message_to_dict_def)
qed

theorem post_empty_username_201_witness:
  "map_of [(''body'', JStr ''hi''), (''username'', JStr '''')] ''body'' = Some (JStr ''hi'')
   \<and> ''hi'' \<noteq> []
   \<and> map_of [(''body'', JStr ''hi''), (''username'', JStr '''')] ''username'' = Some (JStr '''')
   \<and> messages_POST alice_db (JDict [(''body'', JStr ''hi''), (''username'', JStr '''')]) 30 31 =
       (Inr (make_response (RMessage (message_to_dict anon_message)) 201),
        \<lparr>rows = [alice_message, anon_message]\<rparr>)
   \<and> username anon_message = ''''"
proof -
  have h1: "map_of [(''body'', JStr ''hi''), (''username'', JStr '''')] ''body''
              = Some (JStr ''hi'')" by simp
  have h2: "''hi'' \<noteq> []" by simp
  have h3: "map_of [(''body'', JStr ''hi''), (''username'', JStr '''')] ''username''
              = Some (JStr '''')" by simp
  from post_empty_username_201 [OF h1 h2 h3, of alice_db 30 31] h1 h2 h3
  show ?thesis by (auto simp: view_defs sample_defs message_to_dict_def make_response_def)
qed

section \<open>PATCH /messages/<id>\<close>

text \<open>
  C3, as the code has it: a PATCH for an id below \<open>2 ^ 63\<close> that no row has answers 404
  whatever the payload is, and the table stays as it was; the payload is not looked at.
\<close>

theorem patch_unknown_id_404:
  assumes "i < 2 ^ 63" and "i \<notin> msg_id ` set (rows d)"
  shows "message_by_id d PATCH i data now =
           (Inr (make_response (RError ''Message not found'') 404), d)"
proof -
  have "fits_int64 (int i)" using assms(1) by (simp add: fits_int64_nat)
  moreover have "find (\<lambda>m. msg_id m = i) (rows d) = None"
    using assms(2) by (auto simp: find_None_iff)
  ultimately have "session_get d i = Inr None" by (simp add: session_get_def)
  then show ?thesis by (simp add: message_by_id_def)
qed

theorem patch_unknown_id_404_witness:
  "(7::nat) < 2 ^ 63
   \<and> 7 \<notin> msg_id ` set (rows alice_db)
   \<and> message_by_id alice_db PATCH 7 JNull 20 =
       (Inr (make_response (RError ''Message not found'') 404), alice_db)"
proof -
  have h1: "(7::nat) < 2 ^ 63" by simp
  have h2: "7 \<notin> msg_id ` set (rows alice_db)"
    by (simp add: alice_db_def alice_message_def)
  from patch_unknown_id_404 [OF h1 h2, of JNull 20] h1 h2 show ?thesis by blast
qed

text \<open>
  C3 as stated fails: the route takes the id \<open>2 ^ 63\<close>, which no row has; binding it
  for the lookup raises \<open>OverflowError\<close> outside any \<open>try\<close>, so no 404 is made, also for
  a well-formed payload.
\<close>

theorem patch_unknown_id_overflow:
  "2 ^ 63 \<notin> msg_id ` set (rows alice_db)
   \<and> message_by_id alice_db PATCH (2 ^ 63) hello 20 = (Inl OverflowError, alice_db)"
  by (simp add: message_by_id_def session_get_def fits_int64_def alice_db_def
      alice_message_def)

text \<open>
  A PATCH on an existing id whose payload is a JSON object without a \<open>body\<close> key
  answers 400 and leaves the table as it was.
\<close>

lemma patch_without_body_key:
  assumes "session_get d i = Inr (Some m)" "''body'' \<notin> fst ` set kvs"
  shows "message_by_id d PATCH i (JDict kvs) now =
           (Inr (make_response (RErrors [''Missing body in update request.'']) 400), d)"
  using assms by (simp add: message_by_id_def)

text \<open>
  C2, at the payload \<open>null\<close>: on an existing id the PATCH branch evaluates
  \<open>'body' in data\<close> with \<open>data\<close> being \<open>None\<close>, outside any \<open>try\<close>; the \<open>TypeError\<close>
  leaves the view and no 400 is made.
\<close>

theorem patch_null_payload_raises:
  "session_get alice_db 1 = Inr (Some alice_message)
   \<and> message_by_id alice_db PATCH 1 JNull 20 = (Inl TypeError, alice_db)"
  by (simp add: view_defs sample_defs)

text \<open>
  C9: a PATCH on an existing id whose \<open>body\<close> value is empty (the empty string, or any
  other value Python takes for false) answers 400 and leaves the table, and so the
  record's \<open>body\<close> and \<open>updated_at\<close>, as they were.
\<close>

theorem patch_empty_body_400:
  assumes "session_get d i = Inr (Some m)" "map_of kvs ''body'' = Some v" "\<not> truthy v"
  shows "message_by_id d PATCH i (JDict kvs) now =
           (Inr (make_response (RErrors [''Message body cannot be empty.'']) 400), d)
         \<and> session_get (snd (message_by_id d PATCH i (JDict kvs) now)) i = Inr (Some m)"
proof -
  have kb: "''body'' \<in> fst ` set kvs" using assms(2) by (rule key_present)
  have "message_by_id d PATCH i (JDict kvs) now =
          (Inr (make_response (RErrors [''Message body cannot be empty.'']) 400), d)"
    using assms kb by (simp add: message_by_id_def set_body_def validate_body_def)
  then show ?thesis using assms(1) by simp
qed

theorem patch_empty_body_400_witness:
  "session_get alice_db 1 = Inr (Some alice_message)
   \<and> map_of [(''body'', JStr '''')] ''body'' = Some (JStr '''')
   \<and> \<not> truthy (JStr '''')
   \<and> message_by_id alice_db PATCH 1 (JDict [(''body'', JStr '''')]) 20 =
       (Inr (make_response (RErrors [''Message body cannot be empty.'']) 400), alice_db)
   \<and> session_get (snd (message_by_id alice_db PATCH 1 (JDict [(''body'', JStr '''')]) 20)) 1
       = Inr (Some alice_message)"
proof -
  have h1: "session_get alice_db 1 = Inr (Some alice_message)"
    by (simp add: session_get_def fits_int64_def alice_db_def alice_message_def)
  have h2: "map_of [(''body'', JStr '''')] ''body'' = Some (JStr '''')" by simp
  have h3: "\<not> truthy (JStr '''')" by simp
  from patch_empty_body_400 [OF h1 h2 h3, of 20] h1 h2 h3 show ?thesis by blast
qed

text \<open>
  What a PATCH with a non-empty str \<open>body\<close> does to an existing row: when the new body
  equals the stored one nothing is written; otherwise \<open>body\<close> is replaced and
  \<open>updated_at\<close> becomes the clock reading \<open>now\<close>.
\<close>

lemma patch_valid:
  assumes "session_get d i = Inr (Some m)" "map_of kvs ''body'' = Some (JStr b)" "b \<noteq> []"
  shows "\<exists>m' d'. message_by_id d PATCH i (JDict kvs) now =
            (Inr (make_response (RMessage (message_to_dict m')) 202), d')
          \<and> session_get d' i = Inr (Some m')
          \<and> body m' = b \<and> msg_id m' = msg_id m \<and> username m' = username m
          \<and> created_at m' = created_at m
          \<and> updated_at m' = (if b = body m then updated_at m else now)"
proof -
  have kb: "''body'' \<in> fst ` set kvs" using assms(2) by (rule key_present)
  have mi: "msg_id m = i" using assms(1) by (rule session_get_id)
  show ?thesis
  proof (cases "b = body m")
    case True
    then show ?thesis using assms kb
      by (simp add: message_by_id_def set_body_def validate_body_def commit_body_def)
  next
    case False
    have f: "fits_int64 (int i)" "find (\<lambda>r. msg_id r = i) (rows d) = Some m"
      using session_get_found [OF assms(1)] by simp_all
    have "find (\<lambda>r. msg_id r = i) (map (update_row m b now) (rows d))
            = Some (update_row m b now m)"
      by (rule find_map_update) (use f(2) in \<open>auto simp: update_row_def mi\<close>)
    then show ?thesis using assms kb False mi f(1)
      by (simp add: message_by_id_def set_body_def validate_body_def commit_body_def
          session_get_def update_row_def)
  qed
qed

text \<open>
  C5, as the code has it: a PATCH on an existing id with a non-empty str \<open>body\<close> answers
  202 with the record, whose \<open>body\<close> is the new value and whose id, \<open>username\<close> and
  \<open>created_at\<close> are unchanged; its \<open>updated_at\<close> is the prior value when the body is
  unchanged and the clock reading of the update otherwise, so it is not below the prior
  \<open>updated_at\<close> when that reading is not.
\<close>

theorem patch_updates_body:
  assumes "session_get d i = Inr (Some m)" "map_of kvs ''body'' = Some (JStr b)" "b \<noteq> []"
    and "updated_at m \<le> now"
  shows "\<exists>m' d'. message_by_id d PATCH i (JDict kvs) now =
            (Inr (make_response (RMessage (message_to_dict m')) 202), d')
          \<and> session_get d' i = Inr (Some m')
          \<and> body m' = b \<and> msg_id m' = msg_id m \<and> username m' = username m
          \<and> created_at m' = created_at m
          \<and> updated_at m' = (if b = body m then updated_at m else now)
          \<and> updated_at m \<le> updated_at m'"
proof -
  from patch_valid [OF assms(1-3), of now] obtain m' d' where
    r: "message_by_id d PATCH i (JDict kvs) now =
          (Inr (make_response (RMessage (message_to_dict m')) 202), d')"
       "session_get d' i = Inr (Some m')" "body m' = b" "msg_id m' = msg_id m"
       "username m' = username m" "created_at m' = created_at m"
       "updated_at m' = (if b = body m then updated_at m else now)"
    by blast
  have "updated_at m \<le> updated_at m'" using r(7) assms(4) by simp
  then show ?thesis using r by blast
qed

theorem patch_updates_body_witness:
  "session_get alice_db 1 = Inr (Some alice_message)
   \<and> map_of [(''body'', JStr ''hello'')] ''body'' = Some (JStr ''hello'')
   \<and> ''hello'' \<noteq> []
   \<and> updated_at alice_message \<le> 20
   \<and> message_by_id alice_db PATCH 1 (JDict [(''body'', JStr ''hello'')]) 20 =
       (Inr (make_response (RMessage (message_to_dict edited_message)) 202),
        \<lparr>rows = [edited_message]\<rparr>)
   \<and> updated_at alice_message \<le> updated_at edited_message"
proof -
  have h1: "session_get alice_db 1 = Inr (Some alice_message)"
    by (simp add: session_get_def fits_int64_def alice_db_def alice_message_def)
  have h2: "map_of [(''body'', JStr ''hello'')] ''body'' = Some (JStr ''hello'')" by simp
  have h3: "''hello'' \<noteq> []" by simp
  have h4: "updated_at alice_message \<le> 20" by (simp add: alice_message_def)
  from patch_updates_body [OF h1 h2 h3 h4] h1 h2 h3 h4 show ?thesis
    by (auto simp: view_defs sample_defs message_to_dict_def make_response_def)
qed

text \<open>
  C5 as stated fails: the record created at clock reading 10 and patched at a clock
  reading of 5 answers 202 with an \<open>updated_at\<close> below the prior one.
\<close>

theorem patch_clock_back:
  "snd (messages_POST empty_db hi_alice 10 10) = alice_db
   \<and> message_by_id alice_db PATCH 1 hello 5 =
       (Inr (make_response (RMessage (message_to_dict rewound_message)) 202),
        \<lparr>rows = [rewound_message]\<rparr>)
   \<and> updated_at rewound_message < updated_at alice_message"
  by (simp add: view_defs sample_defs)

section \<open>DELETE /messages/<id>\<close>

text \<open>
  C6: a DELETE on an existing id answers 204 with the empty body and removes the row:
  the id is no longer found, no list a following GET can return holds a record with
  that id, and a second DELETE of the id answers 404.
\<close>

theorem delete_removes:
  assumes "session_get d i = Inr (Some m)"
    and "order_by_created_at (snd (message_by_id d DELETE i data now)) ms"
  shows "message_by_id d DELETE i data now = (Inr (make_response REmpty 204), delete_message d m)
       \<and> session_get (delete_message d m) i = Inr None
       \<and> messages_GET ms = make_response (RMessages (map message_to_dict ms)) 200
       \<and> (''id'', CInt i) \<notin> set (concat (map message_to_dict ms))
       \<and> message_by_id (delete_message d m) DELETE i data' now' =
            (Inr (make_response (RError ''Message not found'') 404), delete_message d m)"
proof -
  have mi: "msg_id m = i" using assms(1) by (rule session_get_id)
  have "fits_int64 (int i)" using session_get_found [OF assms(1)] by simp
  then have gone: "session_get (delete_message d m) i = Inr None"
    by (simp add: session_get_def delete_message_def mi find_None_iff)
  have del: "message_by_id d DELETE i data now =
               (Inr (make_response REmpty 204), delete_message d m)"
    using assms(1) by (simp add: message_by_id_def)
  have "set ms = set (rows (delete_message d m))"
    using assms(2) del by (metis order_by_created_at_def mset_eq_setD snd_conv)
  then have "\<forall>r \<in> set ms. msg_id r \<noteq> i" by (auto simp: delete_message_def mi)
  then have absent: "(''id'', CInt i) \<notin> set (concat (map message_to_dict ms))"
    by (auto simp: message_to_dict_def)
  show ?thesis using del gone absent by (simp add: message_by_id_def messages_GET_def)
qed

theorem delete_removes_witness:
  "session_get alice_bob_db 1 = Inr (Some alice_message)
   \<and> order_by_created_at (snd (message_by_id alice_bob_db DELETE 1 JNull 0)) [bob_message]
   \<and> message_by_id alice_bob_db DELETE 1 JNull 0 =
       (Inr (make_response REmpty 204), \<lparr>rows = [bob_message]\<rparr>)
   \<and> session_get \<lparr>rows = [bob_message]\<rparr> 1 = Inr None
   \<and> messages_GET [bob_message] = make_response (RMessages [message_to_dict bob_message]) 200
   \<and> (''id'', CInt 1) \<notin> set (concat (map message_to_dict [bob_message]))
   \<and> message_by_id \<lparr>rows = [bob_message]\<rparr> DELETE 1 JNull 0 =
       (Inr (make_response (RError ''Message not found'') 404), \<lparr>rows = [bob_message]\<rparr>)"
proof -
  have h1: "session_get alice_bob_db 1 = Inr (Some alice_message)"
    by (simp add: session_get_def fits_int64_def alice_bob_db_def alice_message_def)
  have h2: "order_by_created_at (snd (message_by_id alice_bob_db DELETE 1 JNull 0)) [bob_message]"
    by (simp add: view_defs sample_defs order_by_created_at_def)
  have e: "delete_message alice_bob_db alice_message = \<lparr>rows = [bob_message]\<rparr>"
    by (simp add: delete_message_def alice_bob_db_def alice_message_def bob_message_def)
  from delete_removes [OF h1 h2, of JNull 0] h1 h2 show ?thesis
    by (simp add: e)
qed

section \<open>GET /messages\<close>




lemma query_all_admitted: "order_by_created_at d (query_all d)"
proof -
  have "created_le = (\<lambda>a b. created_at a \<le> created_at b)"
    by (simp add: created_le_def fun_eq_iff)
  then have "sorted_wrt created_le (query_all d)"
    using sorted_sort_key [of created_at "sort_key msg_id (rows d)"]
    by (simp add: query_all_def sorted_map)
  then show ?thesis by (simp add: order_by_created_at_def query_all_def)
qed


text \<open>
  After two POSTs that both read the clock at 10, GET lists id 1 before id 2.
\<close>

lemma get_lists_tie_by_id:
  "run empty_db [Post hi_alice 10 10, Post yo_bob 10 10] = alice_bob_db
   \<and> query_all alice_bob_db = [alice_message, bob_message]"
  by (simp add: view_defs sample_defs query_all_def)

section \<open>The order of the two timestamps\<close>

lemma stamped_by_mono: "stamped_by t d \<Longrightarrow> t \<le> t' \<Longrightarrow> stamped_by t' d"
  by (auto simp: stamped_by_def list_all_iff)

lemma insert_message_rows:
  "insert_message d b u tc tu = Inr (m, d') \<Longrightarrow>
     rows d' = rows d @ [m] \<and> created_at m = tc \<and> updated_at m = tu"
  by (auto simp: insert_message_def Let_def split: sum.splits)

lemma create_message_rows:
  "create_message d data tc tu = Inr (m, d') \<Longrightarrow>
     rows d' = rows d @ [m] \<and> created_at m = tc \<and> updated_at m = tu"
  by (auto simp: create_message_def split: sum.splits dest: insert_message_rows)

lemma post_rows:
  "snd (messages_POST d data tc tu) = d \<or>
   (\<exists>m. rows (snd (messages_POST d data tc tu)) = rows d @ [m]
        \<and> created_at m = tc \<and> updated_at m = tu)"
  by (auto simp: messages_POST_def split: sum.splits exn.splits dest: create_message_rows)

lemma stamped_by_post:
  assumes "stamped_by tc d" "tc \<le> tu"
  shows "stamped_by tu (step d (Post data tc tu))"
proof -
  have b: "stamped_by tu d" using assms by (rule stamped_by_mono)
  from post_rows [of d data tc tu] show ?thesis
  proof
    assume "snd (messages_POST d data tc tu) = d"
    then show ?thesis using b by simp
  next
    assume "\<exists>m. rows (snd (messages_POST d data tc tu)) = rows d @ [m]
              \<and> created_at m = tc \<and> updated_at m = tu"
    then show ?thesis using b assms(2) by (auto simp: stamped_by_def)
  qed
qed

lemma commit_body_rows:
  "commit_body d m v t = Inr (m', d') \<Longrightarrow>
     d' = d \<or> (\<exists>b. rows d' = map (update_row m b t) (rows d))"
  by (auto simp: commit_body_def split: if_splits sum.splits)

lemma set_body_rows:
  "set_body d m data t = Inr (m', d') \<Longrightarrow>
     d' = d \<or> (\<exists>b. rows d' = map (update_row m b t) (rows d))"
  by (auto simp: set_body_def split: sum.splits dest: commit_body_rows)

lemma patch_rows:
  "snd (message_by_id d PATCH i data t) = d \<or>
   (\<exists>m b. rows (snd (message_by_id d PATCH i data t)) = map (update_row m b t) (rows d))"
  by (auto simp: message_by_id_def split: option.splits sum.splits exn.splits
      dest: set_body_rows)

lemma update_row_stamps:
  assumes "created_at r \<le> updated_at r" "updated_at r \<le> t"
  shows "created_at (update_row m b t r) \<le> updated_at (update_row m b t r)
       \<and> updated_at (update_row m b t r) \<le> t"
  using assms by (simp add: update_row_def)

lemma stamped_by_patch:
  assumes "stamped_by t d"
  shows "stamped_by t (step d (Patch i data t))"
proof -
  from patch_rows [of d i data t] show ?thesis
  proof
    assume "snd (message_by_id d PATCH i data t) = d"
    then show ?thesis using assms by simp
  next
    assume "\<exists>m b. rows (snd (message_by_id d PATCH i data t)) = map (update_row m b t) (rows d)"
    then obtain m b where
      "rows (snd (message_by_id d PATCH i data t)) = map (update_row m b t) (rows d)" by blast
    then show ?thesis using assms
      by (simp add: stamped_by_def list_all_iff update_row_stamps)
  qed
qed

lemma stamped_by_delete: "stamped_by t d \<Longrightarrow> stamped_by t (step d (Delete i))"
  by (auto simp: stamped_by_def list_all_iff message_by_id_def delete_message_def
      split: option.splits sum.splits)

lemma stamped_by_run:
  assumes "stamped_by lo d" "sorted (lo # concat (map clock_reads reqs))"
  shows "\<exists>hi. stamped_by hi (run d reqs)"
  using assms
proof (induction reqs arbitrary: d lo)
  case Nil
  then show ?case by auto
next
  case (Cons r rs)
  show ?case
  proof (cases r)
    case Get
    then show ?thesis using Cons by simp
  next
    case (Post data tc tu)
    have "lo \<le> tc" "tc \<le> tu" using Cons.prems Post by auto
    then have "stamped_by tu (step d r)"
      using Cons.prems(1) Post stamped_by_post stamped_by_mono by blast
    moreover have "sorted (tu # concat (map clock_reads rs))"
      using Cons.prems Post by auto
    ultimately show ?thesis using Cons.IH by simp
  next
    case (Patch i data t)
    have "lo \<le> t" using Cons.prems Patch by auto
    then have "stamped_by t (step d r)"
      using Cons.prems(1) Patch stamped_by_patch stamped_by_mono by blast
    moreover have "sorted (t # concat (map clock_reads rs))"
      using Cons.prems Patch by auto
    ultimately show ?thesis using Cons.IH by simp
  next
    case (Delete i)
    have "stamped_by lo (step d r)"
      using Cons.prems(1) Delete stamped_by_delete by blast
    then show ?thesis using Cons.prems Cons.IH Delete by simp
  qed
qed

text \<open>
  C8, as the code has it: after any sequence of GET, POST, PATCH and DELETE requests on
  the empty table during which the clock never reads less than it read before, every
  row has \<open>updated_at\<close> greater than or equal to \<open>created_at\<close>.
\<close>

theorem timestamps_ordered_invariant:
  assumes "sorted (concat (map clock_reads reqs))"
  shows "list_all timestamps_ordered (rows (run empty_db reqs))"
proof -
  obtain lo where lo: "sorted (lo # concat (map clock_reads reqs))"
  proof (cases "concat (map clock_reads reqs)")
    case Nil
    have "sorted (0 # concat (map clock_reads reqs))" unfolding Nil by simp
    then show ?thesis using that by blast
  next
    case (Cons t ts)
    then have "sorted (t # concat (map clock_reads reqs))" using assms by auto
    then show ?thesis using that by blast
  qed
  have "stamped_by lo empty_db" by (simp add: stamped_by_def empty_db_def)
  then obtain hi where "stamped_by hi (run empty_db reqs)" using stamped_by_run lo by blast
  then show ?thesis by (auto simp: stamped_by_def list_all_iff timestamps_ordered_def)
qed

theorem timestamps_ordered_invariant_witness:
  "sorted (concat (map clock_reads [Post hi_alice 10 10, Post yo_bob 10 10, Patch 1 hello 20, Delete 2]))
   \<and> rows (run empty_db [Post hi_alice 10 10, Post yo_bob 10 10, Patch 1 hello 20, Delete 2])
       = [edited_message]
   \<and> list_all timestamps_ordered
       (rows (run empty_db [Post hi_alice 10 10, Post yo_bob 10 10, Patch 1 hello 20, Delete 2]))"
proof -
  have h: "sorted (concat (map clock_reads
             [Post hi_alice 10 10, Post yo_bob 10 10, Patch 1 hello 20, Delete 2]))"
    by simp
  have r: "rows (run empty_db [Post hi_alice 10 10, Post yo_bob 10 10, Patch 1 hello 20, Delete 2])
             = [edited_message]"
    by (simp add: view_defs sample_defs)
  from timestamps_ordered_invariant [OF h] h r show ?thesis by blast
qed

text \<open>
  C8 as stated fails: a record created at clock reading 10 and patched when the clock
  reads 5 is stored with \<open>updated_at\<close> below \<open>created_at\<close>.
\<close>

theorem timestamps_disordered_by_clock:
  "rows (run empty_db [Post hi_alice 10 10, Patch 1 hello 5]) = [rewound_message]
   \<and> \<not> list_all timestamps_ordered (rows (run empty_db [Post hi_alice 10 10, Patch 1 hello 5]))"
  by (simp add: view_defs sample_defs timestamps_ordered_def)

end
